theory Spec2Isabelle
  imports Main
begin

section \<open>Calls with effects and exceptions\<close>

text \<open>
  A JavaScript function of the module is called for its result and for its effects, and it
  either returns a value or throws. A call is therefore a function from the state of the
  world before the call to an outcome and the state after it; the outcome is \<open>Inr v\<close>
  when the call returns \<open>v\<close> and \<open>Inl e\<close> when it throws \<open>e\<close>.
  The depth of the engine's call stack is not modelled, so a recursion that never ends is a
  call that never returns.
\<close>

type_synonym ('s, 'e, 'a) js_call = "'s \<Rightarrow> ('e + 'a) \<times> 's"

section \<open>Numbers\<close>

text \<open>
  The module computes with the Numbers of the language in two places: \<open>getPolynom\<close>
  evaluates \<open>result += arr[i] * x ** i\<close>, and the id generator \<open>result.value += 1\<close>.
  The operators \<open>+\<close>, \<open>*\<close> and \<open>**\<close> and the number literals belong to the
  language, not to the module; they are a parameter of the model, so that the functions of
  the module are what the source says for whatever the arithmetic of the engine does.
  \<open>num_lit n\<close> is the Number that the literal of the integer \<open>n\<close> denotes. The right
  operand of \<open>**\<close> in the source is an array index, hence the natural number.
\<close>

record 'n js_arith =
  num_lit :: "int \<Rightarrow> 'n"
  num_add :: "'n \<Rightarrow> 'n \<Rightarrow> 'n"
  num_mul :: "'n \<Rightarrow> 'n \<Rightarrow> 'n"
  num_pow :: "'n \<Rightarrow> nat \<Rightarrow> 'n"

section \<open>The functions of the module\<close>

subsection \<open>getPolynom\<close>

text \<open>
  \<^verbatim>\<open>
  function getPolynom(...params) {
    const arr = params.reverse();
    return (x) => {
      let result = 0;
      for (let i = arr.length - 1; i >= 0; i -= 1) { result += arr[i] * x ** i; }
      return result;
    };
  }
  \<close>
  \<open>poly_loop\<close> is the loop, with the index and the accumulator as arguments. The index
  starts at \<open>arr.length - 1\<close> and only goes down, so every read \<open>arr[i]\<close> is in range;
  it is an array index and counts exactly. The result of \<open>getPolynom\<close> is a function
  or, by the documentation, \<open>null\<close>: \<open>Some\<close> of the function or \<open>None\<close>.
\<close>

function poly_loop :: "'n js_arith \<Rightarrow> 'n list \<Rightarrow> 'n \<Rightarrow> int \<Rightarrow> 'n \<Rightarrow> 'n" where
  "poly_loop A arr x i result =
     (if i \<ge> 0
      then poly_loop A arr x (i - 1)
             (num_add A result (num_mul A (arr ! nat i) (num_pow A x (nat i))))
      else result)"
  by pat_completeness auto
termination
  by (relation "measure (\<lambda>(A, arr, x, i, result). nat (i + 1))") auto

declare poly_loop.simps [simp del]

definition getPolynom :: "'n js_arith \<Rightarrow> 'n list \<Rightarrow> ('n \<Rightarrow> 'n) option" where
  "getPolynom A params =
     (let arr = rev params
      in Some (\<lambda>x. poly_loop A arr x (int (length arr) - 1) (num_lit A 0)))"

subsection \<open>memoize\<close>

text \<open>
  \<^verbatim>\<open>
  function memoize(func) {
    const cash = new Map();
    cash.set(func, func());
    return () => cash.get(func);
  }
  \<close>
  The call \<open>memoize func\<close> itself runs in a state and may throw; when it returns, it
  returns the wrapper. \<open>Map.get\<close> gives \<open>undefined\<close> for a missing key, which is
  \<open>None\<close> here.
\<close>

definition memoize ::
  "('s, 'e, 'a) js_call \<Rightarrow> 's \<Rightarrow> ('e + ('s, 'e, 'a option) js_call) \<times> 's" where
  "memoize func s =
     (let cash = Map.empty in
      case func s of
        (Inl e, s') \<Rightarrow> (Inl e, s')
      | (Inr v, s') \<Rightarrow>
          (let cash = cash(func \<mapsto> v)
           in (Inr (\<lambda>t. (Inr (cash func), t)), s')))"

subsection \<open>retry\<close>

text \<open>
  \<^verbatim>\<open>
  function retry(func, attempts) {
    return () => {
      try { return func(); }
      catch (e) { return retry(func, attempts - 1)(); }
    };
  }
  \<close>
  \<open>retry func attempts\<close> is the returned wrapper and \<open>retry func attempts s\<close> is a
  call of it in state \<open>s\<close>. The recursion of the source has no base case, so the
  wrapper is a partial function: \<open>None\<close> is a call that does not return. The source
  passes \<open>attempts - 1\<close> on and never reads it, so its arithmetic has no effect on a
  call; it is an integer here.
\<close>

partial_function (option) retry ::
  "('s, 'e, 'a) js_call \<Rightarrow> int \<Rightarrow> 's \<Rightarrow> (('e + 'a) \<times> 's) option" where
  "retry func attempts s =
     (case func s of
        (Inr v, s') \<Rightarrow> Some (Inr v, s')
      | (Inl e, s') \<Rightarrow> retry func (attempts - 1) s')"

subsection \<open>logger\<close>

text \<open>
  \<^verbatim>\<open>
  function logger(func, logFunc) {
    return (...params) => {
      const str = JSON.stringify(params).slice(1, -1);
      logFunc(`${func.name}(${str}) starts`);
      const result = func(...params);
      logFunc(`${func.name}(${str}) ends`);
      return result;
    };
  }
  \<close>
  A function value has a name and a body. \<open>JSON.stringify\<close> belongs to the language,
  not to the module, and is a parameter of the model; it returns the text or throws.
  \<open>slice\<close> is \<open>String.prototype.slice\<close>: a negative index counts from the end, and
  both indices are clamped to the string.
\<close>

record ('p, 's, 'e, 'r) js_function =
  name :: string
  body :: "'p list \<Rightarrow> ('s, 'e, 'r) js_call"

definition slice :: "int \<Rightarrow> int \<Rightarrow> string \<Rightarrow> string" where
  "slice start end str =
     (let len = int (length str);
          from = (if start < 0 then max (len + start) 0 else min start len);
          to = (if end < 0 then max (len + end) 0 else min end len)
      in take (nat (to - from)) (drop (nat from) str))"

definition logger ::
  "('p list \<Rightarrow> 'e + string) \<Rightarrow> ('p, 's, 'e, 'r) js_function \<Rightarrow>
   (string \<Rightarrow> ('s, 'e, 'u) js_call) \<Rightarrow> 'p list \<Rightarrow> ('s, 'e, 'r) js_call" where
  "logger stringify func logFunc params s =
     (case stringify params of
        Inl e \<Rightarrow> (Inl e, s)
      | Inr json \<Rightarrow>
          (let str = slice 1 (- 1) json in
           case logFunc (name func @ ''('' @ str @ '') starts'') s of
             (Inl e, s1) \<Rightarrow> (Inl e, s1)
           | (Inr u, s1) \<Rightarrow>
               (case body func params s1 of
                  (Inl e, s2) \<Rightarrow> (Inl e, s2)
                | (Inr result, s2) \<Rightarrow>
                    (case logFunc (name func @ ''('' @ str @ '') ends'') s2 of
                       (Inl e, s3) \<Rightarrow> (Inl e, s3)
                     | (Inr u', s3) \<Rightarrow> (Inr result, s3)))))"

subsection \<open>getIdGeneratorFunction\<close>

text \<open>
  \<^verbatim>\<open>
  function getIdGeneratorFunction(startFrom) {
    const result = { value: startFrom, done: false };
    return () => {
      if (result.done) { result.value += 1; return result.value; }
      result.done = true;
      return result.value;
    };
  }
  \<close>
  Every call of \<open>getIdGeneratorFunction\<close> makes a new object \<open>result\<close>, which the
  returned closure keeps and mutates. The objects live in a store, a new one at the next
  free reference; the closure is \<open>id_generator\<close> at the reference of its object.
\<close>

record 'n result_obj =
  r_value :: 'n
  r_done :: bool

record 'n store =
  cells :: "nat \<Rightarrow> 'n result_obj"
  next_ref :: nat

definition id_generator :: "'n js_arith \<Rightarrow> nat \<Rightarrow> 'n store \<Rightarrow> 'n \<times> 'n store" where
  "id_generator A ref h =
     (let result = cells h ref in
      if r_done result then
        (let result = result\<lparr>r_value := num_add A (r_value result) (num_lit A 1)\<rparr>
         in (r_value result, h\<lparr>cells := (cells h)(ref := result)\<rparr>))
      else
        (let result = result\<lparr>r_done := True\<rparr>
         in (r_value result, h\<lparr>cells := (cells h)(ref := result)\<rparr>)))"

definition getIdGeneratorFunction ::
  "'n js_arith \<Rightarrow> 'n \<Rightarrow> 'n store \<Rightarrow> ('n store \<Rightarrow> 'n \<times> 'n store) \<times> 'n store" where
  "getIdGeneratorFunction A startFrom h =
     (let ref = next_ref h;
          result = \<lparr>r_value = startFrom, r_done = False\<rparr>
      in (id_generator A ref, h\<lparr>cells := (cells h)(ref := result), next_ref := Suc ref\<rparr>))"

section \<open>Observing calls\<close>

text \<open>
  The call counter that a test attaches to a function under observation: the state is
  paired with the number of invocations so far, and every invocation adds one, whether the
  function returns or throws.
\<close>

definition counted :: "('s, 'e, 'a) js_call \<Rightarrow> ('s \<times> nat, 'e, 'a) js_call" where
  "counted func = (\<lambda>(s, n). case func s of (r, s') \<Rightarrow> (r, (s', Suc n)))"


text \<open>
  \<open>fail_run func k s\<close> is the state reached when \<open>func\<close>, started in \<open>s\<close>, throws
  \<open>k\<close> times in a row, and \<open>fails_then_succeeds func k s\<close> is the value and the state
  of the call after them when that call returns: the function fails exactly \<open>k\<close>
  times and then succeeds.
\<close>

primrec fail_run :: "('s, 'e, 'a) js_call \<Rightarrow> nat \<Rightarrow> 's \<Rightarrow> 's option" where
  "fail_run func 0 s = Some s"
| "fail_run func (Suc k) s =
     (case func s of (Inl e, s') \<Rightarrow> fail_run func k s' | (Inr v, s') \<Rightarrow> None)"

definition fails_then_succeeds :: "('s, 'e, 'a) js_call \<Rightarrow> nat \<Rightarrow> 's \<Rightarrow> ('a \<times> 's) option" where
  "fails_then_succeeds func k s =
     (case fail_run func k s of
        None \<Rightarrow> None
      | Some s' \<Rightarrow> (case func s' of (Inr v, t) \<Rightarrow> Some (v, t) | (Inl e, t) \<Rightarrow> None))"

text \<open>
  The sink under observation keeps the lines it was called with, in order, beside the
  state; the wrapped function does not see them.
\<close>

definition traced ::
  "(string \<Rightarrow> ('s, 'e, 'u) js_call) \<Rightarrow> string \<Rightarrow> ('s \<times> string list, 'e, 'u) js_call" where
  "traced logFunc msg = (\<lambda>(s, tr). case logFunc msg s of (r, s') \<Rightarrow> (r, (s', tr @ [msg])))"

definition untraced ::
  "('p, 's, 'e, 'r) js_function \<Rightarrow> ('p, 's \<times> string list, 'e, 'r) js_function" where
  "untraced func =
     \<lparr>name = name func,
      body = (\<lambda>params (s, tr). case body func params s of (r, s') \<Rightarrow> (r, (s', tr)))\<rparr>"

abbreviation starts_line :: "('p, 's, 'e, 'r) js_function \<Rightarrow> string \<Rightarrow> string" where
  "starts_line func json \<equiv> name func @ ''('' @ slice 1 (- 1) json @ '') starts''"

abbreviation ends_line :: "('p, 's, 'e, 'r) js_function \<Rightarrow> string \<Rightarrow> string" where
  "ends_line func json \<equiv> name func @ ''('' @ slice 1 (- 1) json @ '') ends''"

text \<open>
  Two generators called in any order: the schedule says, call by call, whether the first
  generator (\<open>True\<close>) or the second (\<open>False\<close>) is called; the run lists who returned
  what. \<open>returned_by c out\<close> are the values the generator \<open>c\<close> returned, in order.
  \<open>call_list g k h\<close> calls one generator \<open>k\<close> times in a row and gives the values
  and the store after them.
\<close>

primrec call_list ::
  "('n store \<Rightarrow> 'n \<times> 'n store) \<Rightarrow> nat \<Rightarrow> 'n store \<Rightarrow> 'n list \<times> 'n store" where
  "call_list g 0 h = ([], h)"
| "call_list g (Suc k) h =
     (case g h of (v, h') \<Rightarrow> (case call_list g k h' of (vs, h'') \<Rightarrow> (v # vs, h'')))"

fun run_calls ::
  "('n store \<Rightarrow> 'n \<times> 'n store) \<Rightarrow> ('n store \<Rightarrow> 'n \<times> 'n store) \<Rightarrow> bool list \<Rightarrow>
   'n store \<Rightarrow> (bool \<times> 'n) list" where
  "run_calls g1 g2 [] h = []"
| "run_calls g1 g2 (c # cs) h =
     (case (if c then g1 else g2) h of (v, h') \<Rightarrow> (c, v) # run_calls g1 g2 cs h')"

definition returned_by :: "bool \<Rightarrow> (bool \<times> 'n) list \<Rightarrow> 'n list" where
  "returned_by c out = map snd (filter (\<lambda>p. fst p = c) out)"

text \<open>
  \<open>nth_id A start k\<close> is \<open>start + 1 + \<dots> + 1\<close> with \<open>k\<close> additions of the
  language: what \<open>k\<close> increments make of \<open>start\<close>.
\<close>

definition nth_id :: "'n js_arith \<Rightarrow> 'n \<Rightarrow> nat \<Rightarrow> 'n" where
  "nth_id A start k = ((\<lambda>v. num_add A v (num_lit A 1)) ^^ k) start"

text \<open>The object of a generator seeded with \<open>start\<close> after \<open>n\<close> calls of it.\<close>

definition after_calls :: "'n js_arith \<Rightarrow> 'n \<Rightarrow> nat \<Rightarrow> 'n result_obj" where
  "after_calls A start n =
     (if n = 0 then \<lparr>r_value = start, r_done = False\<rparr>
      else \<lparr>r_value = nth_id A start (n - 1), r_done = True\<rparr>)"

subsection \<open>The functions of the examples\<close>

definition always_throws :: "(unit, string, int) js_call" where
  \<comment> \<open>\<^verbatim>\<open>() => { throw new Error('test'); }\<close>\<close>
  "always_throws = (\<lambda>s. (Inl ''test'', s))"


definition throws_until :: "int \<Rightarrow> (int, string, int) js_call" where
  \<comment> \<open>\<^verbatim>\<open>() => { if (++attempt <= k) throw new Error('test'); else return attempt; }\<close>\<close>
  "throws_until k =
     (\<lambda>attempt. let attempt' = attempt + 1
                in if attempt' \<le> k then (Inl ''test'', attempt') else (Inr attempt', attempt'))"

definition returns_const :: "int \<Rightarrow> (unit, string, int) js_call" where
  \<comment> \<open>\<^verbatim>\<open>() => c\<close>\<close>
  "returns_const c = (\<lambda>s. (Inr c, s))"

definition add_numbers :: "(int, nat, string, int) js_function" where
  \<comment> \<open>\<^verbatim>\<open>function add(...xs) { return xs.reduce((a, b) => a + b, 0); }\<close>\<close>
  "add_numbers = \<lparr>name = ''add'', body = (\<lambda>params s. (Inr (sum_list params), s))\<rparr>"

definition boom :: "(int, nat, string, int) js_function" where
  \<comment> \<open>\<^verbatim>\<open>function boom() { throw new Error('test'); }\<close>\<close>
  "boom = \<lparr>name = ''boom'', body = (\<lambda>params s. (Inl ''test'', s))\<rparr>"

definition line_sink :: "string \<Rightarrow> (nat, string, unit) js_call" where
  \<comment> \<open>a sink that counts the lines it has taken\<close>
  "line_sink msg = (\<lambda>n. (Inr (), Suc n))"

definition one_line_sink :: "string \<Rightarrow> (nat, string, unit) js_call" where
  \<comment> \<open>a sink with room for one line, which throws when it is full\<close>
  "one_line_sink msg = (\<lambda>n. if n < 1 then (Inr (), Suc n) else (Inl ''sink full'', n))"

text \<open>
  \<open>JSON.stringify\<close> on an array of integers of magnitude below \<open>10 ^ 21\<close>, which
  the language prints in decimal digits: \<^verbatim>\<open>[1,-20,305]\<close>.
\<close>

fun decimal :: "nat \<Rightarrow> string" where
  "decimal n =
     (if n < 10 then [''0123456789'' ! n]
      else decimal (n div 10) @ [''0123456789'' ! (n mod 10)])"

declare decimal.simps [simp del]

definition number_json :: "int \<Rightarrow> string" where
  "number_json i = (if i < 0 then ''-'' @ decimal (nat (- i)) else decimal (nat i))"

fun join_comma :: "string list \<Rightarrow> string" where
  "join_comma [] = []"
| "join_comma [x] = x"
| "join_comma (x # y # ys) = x @ '','' @ join_comma (y # ys)"

definition stringify_numbers :: "int list \<Rightarrow> string + string" where
  "stringify_numbers params = Inr (''['' @ join_comma (map number_json params) @ '']'')"

section \<open>The arithmetic of the language on integers\<close>

text \<open>
  The Numbers of JavaScript are IEEE 754 doubles. \<open>doubles\<close> is their arithmetic on
  the Numbers that are integers, with the infinities and NaN that the operations reach
  from them: \<open>Num n\<close> is the double of value \<open>n\<close>. Negative zero is not told from
  zero; no operation here tells them apart. A double has 53 significant bits, and the
  result of an operation is the exact result rounded to the nearest double, to the one with
  the even significand on a tie, and to an infinity from \<open>2 ^ 1024\<close> on. The language
  prescribes this for \<open>+\<close>, \<open>*\<close> and number literals; for \<open>**\<close> it leaves the
  precision to the engine, and the rounded exact result is taken here.
\<close>

datatype double = Num int | PosInf | NegInf | NaN

text \<open>\<open>shift_count m\<close> is the number of low bits that \<open>m \<ge> 0\<close> has beyond 53.\<close>

function shift_count :: "int \<Rightarrow> nat" where
  "shift_count m = (if m < 2 ^ 53 then 0 else Suc (shift_count (m div 2)))"
  by pat_completeness auto
termination
  by (relation "measure nat") auto

declare shift_count.simps [simp del]

definition round53 :: "int \<Rightarrow> int" where
  "round53 n =
     (let m = \<bar>n\<bar>; e = shift_count m
      in if e = 0 then n
         else (let q = m div 2 ^ e; r = m mod 2 ^ e; half = 2 ^ (e - 1);
                   q' = (if r > half \<or> (r = half \<and> odd q) then q + 1 else q)
               in sgn n * (q' * 2 ^ e)))"

definition rnd :: "int \<Rightarrow> double" where
  "rnd n =
     (let v = round53 n
      in if v \<ge> 2 ^ 1024 then PosInf else if v \<le> - (2 ^ 1024) then NegInf else Num v)"

definition is_neg :: "double \<Rightarrow> bool" where
  "is_neg x = (case x of Num a \<Rightarrow> a < 0 | NegInf \<Rightarrow> True | _ \<Rightarrow> False)"

definition dbl_add :: "double \<Rightarrow> double \<Rightarrow> double" where
  "dbl_add x y =
     (case (x, y) of
        (Num a, Num b) \<Rightarrow> rnd (a + b)
      | _ \<Rightarrow> if x = NaN \<or> y = NaN \<or> (x = PosInf \<and> y = NegInf) \<or> (x = NegInf \<and> y = PosInf)
             then NaN
             else if x = PosInf \<or> y = PosInf then PosInf else NegInf)"

definition dbl_mul :: "double \<Rightarrow> double \<Rightarrow> double" where
  "dbl_mul x y =
     (case (x, y) of
        (Num a, Num b) \<Rightarrow> rnd (a * b)
      | _ \<Rightarrow> if x = NaN \<or> y = NaN \<or> x = Num 0 \<or> y = Num 0 then NaN
             else if is_neg x = is_neg y then PosInf else NegInf)"

definition dbl_pow :: "double \<Rightarrow> nat \<Rightarrow> double" where
  "dbl_pow x i =
     (if i = 0 then Num 1
      else case x of
             Num a \<Rightarrow> rnd (a ^ i)
           | PosInf \<Rightarrow> PosInf
           | NegInf \<Rightarrow> if odd i then NegInf else PosInf
           | NaN \<Rightarrow> NaN)"

definition doubles :: "double js_arith" where
  "doubles = \<lparr>num_lit = rnd, num_add = dbl_add, num_mul = dbl_mul, num_pow = dbl_pow\<rparr>"

text \<open>
  An arithmetic is exact up to \<open>B\<close> when its operations on the Numbers of integers of
  magnitude at most \<open>B\<close> give the Number of the integer result, as long as that result
  is of magnitude at most \<open>B\<close> too. The doubles are exact up to \<open>2 ^ 53 - 1\<close>, the
  \<open>Number.MAX_SAFE_INTEGER\<close> of the language.
\<close>

definition exact_upto :: "'n js_arith \<Rightarrow> int \<Rightarrow> bool" where
  "exact_upto A B \<longleftrightarrow>
     (\<forall>a b. \<bar>a\<bar> \<le> B \<and> \<bar>b\<bar> \<le> B \<and> \<bar>a + b\<bar> \<le> B \<longrightarrow>
        num_add A (num_lit A a) (num_lit A b) = num_lit A (a + b)) \<and>
     (\<forall>a b. \<bar>a\<bar> \<le> B \<and> \<bar>b\<bar> \<le> B \<and> \<bar>a * b\<bar> \<le> B \<longrightarrow>
        num_mul A (num_lit A a) (num_lit A b) = num_lit A (a * b)) \<and>
     (\<forall>a i. \<bar>a\<bar> \<le> B \<and> \<bar>a ^ i\<bar> \<le> B \<longrightarrow>
        num_pow A (num_lit A a) i = num_lit A (a ^ i))"




text \<open>A store in which no generator has been made yet.\<close>

definition empty_store :: "double store" where
  "empty_store = \<lparr>cells = (\<lambda>ref. \<lparr>r_value = Num 0, r_done = False\<rparr>), next_ref = 0\<rparr>"

section \<open>Properties\<close>

subsection \<open>retry\<close>

lemma counted_apply:
  "func s = (r, s') \<Longrightarrow> counted func (s, n) = (r, (s', Suc n))"
  by (simp add: counted_def)

lemma retry_throw:
  "func s = (Inl e, s') \<Longrightarrow> retry func attempts s = retry func (attempts - 1) s'"
  by (subst retry.simps) simp

lemma retry_return:
  "func s = (Inr v, s') \<Longrightarrow> retry func attempts s = Some (Inr v, s')"
  by (subst retry.simps) simp

lemma retry_fail_run:
  "fail_run func k s = Some s' \<Longrightarrow> retry func attempts s = retry func (attempts - int k) s'"
proof (induction k arbitrary: s attempts)
  case 0
  then show ?case by simp
next
  case (Suc k)
  obtain r s1 where f: "func s = (r, s1)" by (cases "func s")
  show ?case
  proof (cases r)
    case (Inl e)
    with f Suc.prems have "fail_run func k s1 = Some s'" by simp
    then have "retry func (attempts - 1) s1 = retry func (attempts - 1 - int k) s'"
      by (rule Suc.IH)
    with f Inl show ?thesis by (simp add: retry_throw algebra_simps)
  next
    case (Inr v)
    with f Suc.prems show ?thesis by simp
  qed
qed

lemma fails_then_succeedsD:
  assumes "fails_then_succeeds func k s = Some (v, t)"
  obtains s' where "fail_run func k s = Some s'" and "func s' = (Inr v, t)"
  using assms
  by (auto simp: fails_then_succeeds_def split: option.splits prod.splits sum.splits)

lemma retry_fails_then_succeeds:
  assumes "fails_then_succeeds func k s = Some (v, t)"
  shows "retry func attempts s = Some (Inr v, t)"
proof -
  from assms obtain s' where run: "fail_run func k s = Some s'" and last: "func s' = (Inr v, t)"
    by (rule fails_then_succeedsD)
  from run have "retry func attempts s = retry func (attempts - int k) s'"
    by (rule retry_fail_run)
  also from last have "\<dots> = Some (Inr v, t)" by (rule retry_return)
  finally show ?thesis .
qed

text \<open>A wrapper around a function that throws in every state does not return.\<close>

lemma retry_never_returns:
  assumes "\<And>s. isl (fst (func s))"
  shows "retry func attempts s = None"
proof (rule ccontr)
  assume "retry func attempts s \<noteq> None"
  then obtain y where ret: "retry func attempts s = Some y" by auto
  have "\<exists>s. \<not> isl (fst (func s))"
  proof (rule retry.raw_induct
      [where P = "\<lambda>func attempts s y. \<exists>s. \<not> isl (fst (func s))", OF _ ret])
    fix retry' :: "('a, 'b, 'c) js_call \<Rightarrow> int \<Rightarrow> 'a \<Rightarrow> (('b + 'c) \<times> 'a) option"
    fix func attempts s y
    assume IH: "\<And>func attempts s y.
      retry' func attempts s = Some y \<Longrightarrow> \<exists>s. \<not> isl (fst (func s))"
    assume unfolded: "(case func s of (Inl e, s') \<Rightarrow> retry' func (attempts - 1) s'
                   | (Inr v, s') \<Rightarrow> Some (Inr v, s')) = Some y"
    obtain r s1 where f: "func s = (r, s1)" by (cases "func s")
    show "\<exists>s. \<not> isl (fst (func s))"
    proof (cases r)
      case (Inl e)
      with f unfolded have "retry' func (attempts - 1) s1 = Some y" by simp
      then show ?thesis by (rule IH)
    next
      case (Inr v)
      with f have "\<not> isl (fst (func s))" by simp
      then show ?thesis ..
    qed
  qed
  with assms show False by simp
qed





text \<open>
  Claim C1. For a producer that always throws, the claim has the wrapper of
  \<open>retry producer 2\<close> invoke the producer three times and then throw the producer's
  error. The code does not: after the third failure it goes on to a fourth invocation,
  with \<open>attempts = -2\<close> to pass on, and the call never returns.
\<close>

theorem retry_exhaustion_unbounded:
  "retry (counted always_throws) 2 ((), 0) = retry (counted always_throws) (- 2) ((), 4) \<and>
   retry (counted always_throws) 2 ((), 0) = None"
proof
  have step: "retry (counted always_throws) a ((), n)
            = retry (counted always_throws) (a - 1) ((), Suc n)" for a n
    by (rule retry_throw [where e = "''test''"]) (simp add: counted_def always_throws_def)
  have "retry (counted always_throws) 2 ((), 0)
      = retry (counted always_throws) (2 - 1 - 1 - 1 - 1) ((), Suc (Suc (Suc (Suc 0))))"
    by (subst step, subst step, subst step, subst step) (rule refl)
  then show "retry (counted always_throws) 2 ((), 0)
           = retry (counted always_throws) (- 2) ((), 4)"
    by (simp add: numeral_eq_Suc)
  show "retry (counted always_throws) 2 ((), 0) = None"
    by (rule retry_never_returns) (simp add: counted_def always_throws_def split: prod.splits)
qed

text \<open>
  Claim C3. The claim bounds the producer invocations of one wrapper call by
  \<open>maxAttempts + 1\<close>. With \<open>maxAttempts = 1\<close> and a producer that throws on its first
  three invocations, the wrapper of the code returns the value of the fourth invocation:
  four invocations where the claim allows two.
\<close>

theorem retry_exceeds_budget:
  "retry (counted (throws_until 3)) 1 (0, 0) = Some (Inr 4, (4, 4)) \<and> (4::nat) > 1 + 1"
proof -
  have "fails_then_succeeds (counted (throws_until 3)) 3 (0, 0) = Some (4, (4, 4))"
    by (simp add: fails_then_succeeds_def throws_until_def counted_def numeral_3_eq_3)
  then show ?thesis by (simp add: retry_fails_then_succeeds)
qed

subsection \<open>memoize\<close>


lemma memoize_throw:
  "func s = (Inl e, s') \<Longrightarrow> memoize func s = (Inl e, s')"
  by (simp add: memoize_def)


lemma memoize_counted_calls: "snd (snd (memoize (counted func) (s, n))) = Suc n"
  by (cases "func s") (auto simp: memoize_def counted_def split: sum.splits)

text \<open>
  Claim C2. The claim has the producer invoked by the first call of the wrapper and not
  before. In the code the counter of the producer is at one when \<open>memoize\<close> has returned
  and no call of the wrapper has been made, and the first call of the wrapper leaves it
  there: that call returns the stored value without invoking the producer.
\<close>

theorem memoize_eager_call:
  "\<exists>wrapped. memoize (counted (returns_const 7)) ((), 0) = (Inr wrapped, ((), 1)) \<and>
     wrapped ((), 1) = (Inr (Some 7), ((), 1))"
  by (simp add: memoize_def counted_def returns_const_def)



text \<open>
  Claim C9. \<open>memoize func\<close> invokes \<open>func\<close> once during the call of \<open>memoize\<close>
  itself, whatever \<open>func\<close> does; so when \<open>func\<close> throws, the call of \<open>memoize\<close>
  throws the same exception after that one invocation and returns no wrapper.
\<close>

theorem memoize_throws_at_wrap:
  "snd (snd (memoize (counted func) (s, n))) = Suc n \<and>
   (\<forall>e s'. func s = (Inl e, s') \<longrightarrow>
      memoize func s = (Inl e, s') \<and> memoize (counted func) (s, n) = (Inl e, (s', Suc n)))"
  by (simp add: memoize_counted_calls memoize_throw counted_apply)

theorem memoize_throws_at_wrap_witness:
  "snd (snd (memoize (counted always_throws) ((), 0))) = Suc 0 \<and>
   always_throws () = (Inl ''test'', ()) \<and>
   memoize always_throws () = (Inl ''test'', ()) \<and>
   memoize (counted always_throws) ((), 0) = (Inl ''test'', ((), Suc 0))"
proof -
  have h: "always_throws () = (Inl ''test'', ())" by (simp add: always_throws_def)
  from memoize_throws_at_wrap [of always_throws "()" 0] h show ?thesis by blast
qed

subsection \<open>Doubles on integers\<close>

lemma round53_small: "\<bar>n\<bar> < 2 ^ 53 \<Longrightarrow> round53 n = n"
  by (simp add: round53_def shift_count.simps)

lemma rnd_exact: "\<bar>n\<bar> \<le> 2 ^ 53 - 1 \<Longrightarrow> rnd n = Num n"
proof -
  assume a: "\<bar>n\<bar> \<le> 2 ^ 53 - 1"
  then have small: "\<bar>n\<bar> < 2 ^ 53" by simp
  have "(2::int) ^ 53 < 2 ^ 1024" by (rule power_strict_increasing) simp_all
  with small have "n < 2 ^ 1024" "- (2 ^ 1024) < n" by (auto simp: abs_if split: if_splits)
  with small show ?thesis by (simp add: rnd_def round53_small)
qed

lemma doubles_exact: "exact_upto doubles (2 ^ 53 - 1)"
  unfolding exact_upto_def
proof (intro conjI allI impI)
  fix a b :: int
  assume "\<bar>a\<bar> \<le> 2 ^ 53 - 1 \<and> \<bar>b\<bar> \<le> 2 ^ 53 - 1 \<and> \<bar>a + b\<bar> \<le> 2 ^ 53 - 1"
  then show "num_add doubles (num_lit doubles a) (num_lit doubles b) = num_lit doubles (a + b)"
    by (simp add: doubles_def rnd_exact dbl_add_def)
next
  fix a b :: int
  assume "\<bar>a\<bar> \<le> 2 ^ 53 - 1 \<and> \<bar>b\<bar> \<le> 2 ^ 53 - 1 \<and> \<bar>a * b\<bar> \<le> 2 ^ 53 - 1"
  then show "num_mul doubles (num_lit doubles a) (num_lit doubles b) = num_lit doubles (a * b)"
    by (simp add: doubles_def rnd_exact dbl_mul_def)
next
  fix a :: int and i :: nat
  assume "\<bar>a\<bar> \<le> 2 ^ 53 - 1 \<and> \<bar>a ^ i\<bar> \<le> 2 ^ 53 - 1"
  then show "num_pow doubles (num_lit doubles a) i = num_lit doubles (a ^ i)"
    by (simp add: doubles_def rnd_exact dbl_pow_def)
qed

lemma doubles_lit: "\<bar>n\<bar> \<le> 2 ^ 53 - 1 \<Longrightarrow> num_lit doubles n = Num n"
  by (simp add: doubles_def rnd_exact)


text \<open>Beyond \<open>2 ^ 53\<close> an odd integer is rounded to a neighbour, the even one on a tie.\<close>

lemma rnd_examples:
  "rnd 9007199254740992 = Num 9007199254740992"
  "rnd 9007199254740993 = Num 9007199254740992"
  "rnd 9007199254740995 = Num 9007199254740996"
  "rnd (- 9007199254740993) = Num (- 9007199254740992)"
  "rnd 9007199515875289 = Num 9007199515875288"
  by (simp_all add: rnd_def round53_def shift_count.simps Let_def)

subsection \<open>getPolynom\<close>










text \<open>
  Claim C6. The claim has \<open>getPolynom()\<close> return \<open>null\<close>. The code returns a function
  for the empty list of coefficients as for any other: the function that is zero everywhere.
\<close>

theorem getPolynom_no_arguments:
  "getPolynom A [] \<noteq> None \<and> getPolynom A [] = Some (\<lambda>x. num_lit A 0)"
  by (simp add: getPolynom_def poly_loop.simps)

subsection \<open>logger\<close>

lemma slice_examples:
  "slice 1 (- 1) ''[1,2]'' = ''1,2''" "slice 1 (- 1) ''[]'' = []"
  "slice 1 (- 1) ''a'' = []" "slice 1 (- 1) [] = []"
  by (simp_all add: slice_def)

lemma stringify_numbers_examples:
  "stringify_numbers [] = Inr ''[]''" "stringify_numbers [1, 2] = Inr ''[1,2]''"
  "stringify_numbers [1, - 20, 305] = Inr ''[1,-20,305]''"
  by (simp_all add: stringify_numbers_def number_json_def decimal.simps)

text \<open>
  Claim C10, as the code has it. Let the arguments be serialised and the sink return from
  the \<open>starts\<close> line, so that the wrapped function is called. If the function throws,
  the sink has been invoked once, with the \<open>starts\<close> line, and the wrapper throws the
  same exception. If the function returns and the sink returns from the \<open>ends\<close> line
  too, the sink has been invoked twice, with the \<open>starts\<close> line before the call and the
  \<open>ends\<close> line after it, and the wrapper returns the function's result.
\<close>

theorem logger_brackets_call:
  assumes "stringify params = Inr json"
    and "logFunc (starts_line func json) s = (Inr u, sa)"
  shows "(\<forall>e sb. body func params sa = (Inl e, sb) \<longrightarrow>
            logger stringify (untraced func) (traced logFunc) params (s, [])
              = (Inl e, (sb, [starts_line func json]))) \<and>
         (\<forall>r sb u' sc. body func params sa = (Inr r, sb) \<and>
              logFunc (ends_line func json) sb = (Inr u', sc) \<longrightarrow>
            logger stringify (untraced func) (traced logFunc) params (s, [])
              = (Inr r, (sc, [starts_line func json, ends_line func json])))"
  using assms by (simp add: logger_def traced_def untraced_def Let_def)

theorem logger_brackets_call_witness:
  "stringify_numbers [1, 2] = Inr ''[1,2]'' \<and>
   line_sink (starts_line boom ''[1,2]'') 0 = (Inr (), 1) \<and>
   body boom [1, 2] 1 = (Inl ''test'', 1) \<and>
   logger stringify_numbers (untraced boom) (traced line_sink) [1, 2] (0, [])
     = (Inl ''test'', (1, [''boom(1,2) starts''])) \<and>
   line_sink (starts_line add_numbers ''[1,2]'') 0 = (Inr (), 1) \<and>
   body add_numbers [1, 2] 1 = (Inr 3, 1) \<and>
   line_sink (ends_line add_numbers ''[1,2]'') 1 = (Inr (), 2) \<and>
   logger stringify_numbers (untraced add_numbers) (traced line_sink) [1, 2] (0, [])
     = (Inr 3, (2, [''add(1,2) starts'', ''add(1,2) ends'']))"
proof -
  have j: "stringify_numbers [1, 2] = Inr ''[1,2]''" by (rule stringify_numbers_examples)
  have b1: "line_sink (starts_line boom ''[1,2]'') 0 = (Inr (), 1)"
    by (simp add: line_sink_def)
  have b2: "body boom [1, 2] 1 = (Inl ''test'', 1)" by (simp add: boom_def)
  have a1: "line_sink (starts_line add_numbers ''[1,2]'') 0 = (Inr (), 1)"
    by (simp add: line_sink_def)
  have a2: "body add_numbers [1, 2] 1 = (Inr 3, 1)" by (simp add: add_numbers_def)
  have a3: "line_sink (ends_line add_numbers ''[1,2]'') 1 = (Inr (), 2)"
    by (simp add: line_sink_def)
  from logger_brackets_call [where func = boom and logFunc = line_sink and s = 0
      and stringify = stringify_numbers and params = "[1, 2]" and json = "''[1,2]''", OF j b1] b2
  have "logger stringify_numbers (untraced boom) (traced line_sink) [1, 2] (0, [])
          = (Inl ''test'', (1, [starts_line boom ''[1,2]'']))" by blast
  moreover
  from logger_brackets_call [where func = add_numbers and logFunc = line_sink and s = 0
      and stringify = stringify_numbers and params = "[1, 2]" and json = "''[1,2]''", OF j a1]
    a2 a3
  have "logger stringify_numbers (untraced add_numbers) (traced line_sink) [1, 2] (0, [])
          = (Inr 3, (2, [starts_line add_numbers ''[1,2]'', ends_line add_numbers ''[1,2]'']))"
    by blast
  ultimately show ?thesis using j b1 b2 a1 a2 a3
    by (simp add: slice_def boom_def add_numbers_def)
qed

text \<open>
  Claim C10, as it is stated, fails for a sink that throws on the \<open>ends\<close> line: the
  wrapped function has returned 3, the sink has been invoked twice, and the wrapper throws
  the sink's exception instead of returning 3.
\<close>

theorem logger_sink_failure_counterexample:
  "body add_numbers [1, 2] 1 = (Inr 3, 1) \<and>
   logger stringify_numbers (untraced add_numbers) (traced one_line_sink) [1, 2] (0, [])
     = (Inl ''sink full'', (1, [''add(1,2) starts'', ''add(1,2) ends'']))"
  by (simp add: logger_def traced_def untraced_def add_numbers_def one_line_sink_def
        stringify_numbers_examples slice_def Let_def)

subsection \<open>getIdGeneratorFunction\<close>

lemma nth_id_Suc: "nth_id A start (Suc k) = num_add A (nth_id A start k) (num_lit A 1)"
  by (simp add: nth_id_def)

lemma id_generator_step:
  assumes "cells h ref = after_calls A start n"
  shows "fst (id_generator A ref h) = nth_id A start n"
    and "cells (snd (id_generator A ref h)) ref = after_calls A start (Suc n)"
    and "ref' \<noteq> ref \<Longrightarrow> cells (snd (id_generator A ref h)) ref' = cells h ref'"
    and "next_ref (snd (id_generator A ref h)) = next_ref h"
  using assms
  by (cases n; simp add: id_generator_def after_calls_def Let_def nth_id_def)+

lemma call_list_ids:
  assumes "cells h ref = after_calls A start n"
  shows "fst (call_list (id_generator A ref) k h) = map (nth_id A start) [n..<n + k] \<and>
         cells (snd (call_list (id_generator A ref) k h)) ref = after_calls A start (n + k) \<and>
         next_ref (snd (call_list (id_generator A ref) k h)) = next_ref h"
  using assms
proof (induction k arbitrary: h n)
  case 0
  then show ?case by simp
next
  case (Suc k)
  obtain v h' where step: "id_generator A ref h = (v, h')" by (cases "id_generator A ref h")
  with id_generator_step [OF Suc.prems]
  have v: "v = nth_id A start n" and c: "cells h' ref = after_calls A start (Suc n)"
    and nr: "next_ref h' = next_ref h" by auto
  from Suc.IH [OF c] step v nr show ?case
    by (simp add: split_beta upt_conv_Cons del: upt_Suc)
qed

text \<open>
  Two generators on different objects, the first called \<open>n1\<close> times so far and the
  second \<open>n2\<close> times: whatever the order of the calls that follow, each generator goes on
  counting from where it was.
\<close>

lemma run_calls_ids:
  assumes "ref1 \<noteq> ref2"
    and "cells h ref1 = after_calls A a n1" and "cells h ref2 = after_calls A b n2"
  shows "returned_by True (run_calls (id_generator A ref1) (id_generator A ref2) sched h)
           = map (nth_id A a) [n1..<n1 + length (filter (\<lambda>c. c) sched)] \<and>
         returned_by False (run_calls (id_generator A ref1) (id_generator A ref2) sched h)
           = map (nth_id A b) [n2..<n2 + length (filter Not sched)]"
  using assms
proof (induction sched arbitrary: h n1 n2)
  case Nil
  then show ?case by (simp add: returned_by_def)
next
  case (Cons c cs)
  show ?case
  proof (cases c)
    case True
    obtain v h' where step: "id_generator A ref1 h = (v, h')"
      by (cases "id_generator A ref1 h")
    with id_generator_step [OF Cons.prems(2)] Cons.prems(1)
    have v: "v = nth_id A a n1" and c1: "cells h' ref1 = after_calls A a (Suc n1)"
      and c2: "cells h' ref2 = cells h ref2" by auto
    from c2 Cons.prems(3) have c2': "cells h' ref2 = after_calls A b n2" by simp
    from Cons.IH [OF Cons.prems(1) c1 c2'] True step v show ?thesis
      by (simp add: returned_by_def upt_conv_Cons del: upt_Suc)
  next
    case False
    obtain v h' where step: "id_generator A ref2 h = (v, h')"
      by (cases "id_generator A ref2 h")
    with id_generator_step [OF Cons.prems(3)] Cons.prems(1)
    have v: "v = nth_id A b n2" and c2: "cells h' ref2 = after_calls A b (Suc n2)"
      and c1: "cells h' ref1 = cells h ref1" by auto
    from c1 Cons.prems(2) have c1': "cells h' ref1 = after_calls A a n1" by simp
    from Cons.IH [OF Cons.prems(1) c1' c2] False step v show ?thesis
      by (simp add: returned_by_def upt_conv_Cons del: upt_Suc)
  qed
qed

lemma nth_id_exact:
  assumes "exact_upto A B"
  shows "\<bar>a\<bar> + int m \<le> B \<Longrightarrow> nth_id A (num_lit A a) m = num_lit A (a + int m)"
proof (induction m)
  case 0
  show ?case by (simp add: nth_id_def)
next
  case (Suc m)
  then have ih: "nth_id A (num_lit A a) m = num_lit A (a + int m)" by simp
  from Suc.prems have "\<bar>a + int m\<bar> \<le> B" "\<bar>1::int\<bar> \<le> B" "\<bar>a + int m + 1\<bar> \<le> B" by simp_all
  with assms have "num_add A (num_lit A (a + int m)) (num_lit A 1) = num_lit A (a + int m + 1)"
    unfolding exact_upto_def by blast
  with ih show ?case by (simp add: nth_id_Suc ac_simps)
qed

text \<open>
  Claim C8, as the code has it. Make a generator from \<open>a\<close>, call it any number of
  times, make a generator from \<open>b\<close>, and call the two in any order. The values the
  first returns are \<open>a\<close> on its first call and, on every later call, the sum of its
  previous value and 1 in the arithmetic of the language, however many calls of the second
  come in between; the same holds for the second and \<open>b\<close>. When the arithmetic is exact up
  to \<open>B\<close>, as the doubles are up to \<open>2 ^ 53 - 1\<close>, the call number \<open>m + 1\<close> of a
  generator from the integer \<open>n\<close> returns the integer \<open>n + m\<close>, exactly 1 more than
  the call before, as long as \<open>\<bar>n\<bar> + m\<close> is at most \<open>B\<close>.
\<close>

theorem id_generators_independent:
  "(let (g1, h1) = getIdGeneratorFunction A a h;
        (early, h1') = call_list g1 k h1;
        (g2, h2) = getIdGeneratorFunction A b h1';
        out = run_calls g1 g2 sched h2
    in early @ returned_by True out
         = map (nth_id A a) [0..<k + length (filter (\<lambda>c. c) sched)] \<and>
       returned_by False out = map (nth_id A b) [0..<length (filter Not sched)]) \<and>
   (\<forall>B n m. exact_upto A B \<and> \<bar>n\<bar> + int m \<le> B \<longrightarrow>
      nth_id A (num_lit A n) m = num_lit A (n + int m))"
proof
  let ?r1 = "next_ref h"
  let ?h1 = "snd (getIdGeneratorFunction A a h)"
  let ?c = "call_list (id_generator A ?r1) k ?h1"
  let ?r2 = "next_ref (snd ?c)"
  let ?h2 = "snd (getIdGeneratorFunction A b (snd ?c))"
  have init: "cells ?h1 ?r1 = after_calls A a 0"
    by (simp add: getIdGeneratorFunction_def after_calls_def Let_def)
  from call_list_ids [OF init, of k]
  have early: "fst ?c = map (nth_id A a) [0..<k]"
    and c1: "cells (snd ?c) ?r1 = after_calls A a k"
    and nr: "?r2 = Suc ?r1"
    by (simp_all add: getIdGeneratorFunction_def Let_def)
  from nr have ne: "?r1 \<noteq> ?r2" by simp
  from c1 ne have c1': "cells ?h2 ?r1 = after_calls A a k"
    by (simp add: getIdGeneratorFunction_def Let_def)
  have c2: "cells ?h2 ?r2 = after_calls A b 0"
    by (simp add: getIdGeneratorFunction_def after_calls_def Let_def)
  from run_calls_ids [OF ne c1' c2, of sched]
  have run: "returned_by True (run_calls (id_generator A ?r1) (id_generator A ?r2) sched ?h2)
           = map (nth_id A a) [k..<k + length (filter (\<lambda>c. c) sched)]"
       "returned_by False (run_calls (id_generator A ?r1) (id_generator A ?r2) sched ?h2)
           = map (nth_id A b) [0..<length (filter Not sched)]"
    by simp_all
  have "map (nth_id A a) [0..<k] @ map (nth_id A a) [k..<k + length (filter (\<lambda>c. c) sched)]
      = map (nth_id A a) [0..<k + length (filter (\<lambda>c. c) sched)]"
    by (simp add: upt_add_eq_append [of 0 k] del: upt_Suc)
  with early run
  show "(let (g1, h1) = getIdGeneratorFunction A a h;
        (early, h1') = call_list g1 k h1;
        (g2, h2) = getIdGeneratorFunction A b h1';
        out = run_calls g1 g2 sched h2
    in early @ returned_by True out
         = map (nth_id A a) [0..<k + length (filter (\<lambda>c. c) sched)] \<and>
       returned_by False out = map (nth_id A b) [0..<length (filter Not sched)])"
    by (simp add: getIdGeneratorFunction_def Let_def split_beta)
  show "\<forall>B n m. exact_upto A B \<and> \<bar>n\<bar> + int m \<le> B \<longrightarrow>
      nth_id A (num_lit A n) m = num_lit A (n + int m)"
    by (auto intro: nth_id_exact)
qed

theorem id_generators_independent_witness:
  "(let (getId4, h1) = getIdGeneratorFunction doubles (Num 4) empty_store;
        (early, h1') = call_list getId4 1 h1;
        (getId10, h2) = getIdGeneratorFunction doubles (Num 10) h1';
        out = run_calls getId4 getId10 [False, True, True, True, False] h2
    in early @ returned_by True out = [Num 4, Num 5, Num 6, Num 7] \<and>
       returned_by False out = [Num 10, Num 11]) \<and>
   exact_upto doubles (2 ^ 53 - 1) \<and> \<bar>4::int\<bar> + int 3 \<le> 2 ^ 53 - 1 \<and>
   nth_id doubles (Num 4) 3 = Num 7"
proof -
  have ids: "nth_id doubles (Num 4) 0 = Num 4" "nth_id doubles (Num 4) (Suc 0) = Num 5"
    "nth_id doubles (Num 4) 2 = Num 6" "nth_id doubles (Num 4) 3 = Num 7"
    "nth_id doubles (Num 10) 0 = Num 10" "nth_id doubles (Num 10) (Suc 0) = Num 11"
    by (simp_all add: nth_id_def numeral_eq_Suc doubles_def dbl_add_def rnd_def round53_def
          shift_count.simps)
  have range: "\<bar>4::int\<bar> + int 3 \<le> 2 ^ 53 - 1" by simp
  have lists: "[0..<1 + length (filter (\<lambda>c. c) [False, True, True, True, False])]
                 = [0, 1, 2, 3]"
    "[0..<length (filter Not [False, True, True, True, False])] = [0, 1]"
    by (simp_all add: upt_rec)
  from id_generators_independent
    [of doubles "Num 4" empty_store 1 "Num 10" "[False, True, True, True, False]"]
  have run: "(let (getId4, h1) = getIdGeneratorFunction doubles (Num 4) empty_store;
        (early, h1') = call_list getId4 1 h1;
        (getId10, h2) = getIdGeneratorFunction doubles (Num 10) h1';
        out = run_calls getId4 getId10 [False, True, True, True, False] h2
    in early @ returned_by True out = [Num 4, Num 5, Num 6, Num 7] \<and>
       returned_by False out = [Num 10, Num 11])"
    and exact: "\<forall>B n m. exact_upto doubles B \<and> \<bar>n\<bar> + int m \<le> B \<longrightarrow>
      nth_id doubles (num_lit doubles n) m = num_lit doubles (n + int m)"
    unfolding lists by (simp_all add: ids)
  from exact doubles_exact range
  have "nth_id doubles (num_lit doubles 4) 3 = num_lit doubles (4 + int 3)" by blast
  then have "nth_id doubles (Num 4) 3 = Num 7" by (simp add: doubles_lit)
  with run doubles_exact range show ?thesis by simp
qed

text \<open>
  Claim C8, as it is stated, fails in doubles: a generator from
  \<open>2 ^ 53 - 1 = 9007199254740991\<close> returns \<open>2 ^ 53\<close> on its second call and
  \<open>2 ^ 53\<close> again on its third, since \<open>2 ^ 53 + 1\<close> is rounded to \<open>2 ^ 53\<close>.
\<close>

theorem id_generator_rounding_counterexample:
  "fst (call_list (fst (getIdGeneratorFunction doubles (Num 9007199254740991) empty_store)) 3
         (snd (getIdGeneratorFunction doubles (Num 9007199254740991) empty_store)))
     = [Num 9007199254740991, Num 9007199254740992, Num 9007199254740992]"
  by (simp add: getIdGeneratorFunction_def id_generator_def empty_store_def numeral_3_eq_3
        doubles_def dbl_add_def rnd_def round53_def shift_count.simps Let_def)

end
